theory Spec2Isabelle
  imports Complex_Main "HOL-Library.Sublist"
begin

section \<open>Python values used by the matching driver\<close>

text \<open>
  The development embeds \<^verbatim>\<open>src/matching/index-search-bib.py\<close> and
  \<^verbatim>\<open>load_ocr\<close> of \<^verbatim>\<open>src/NER/helper.py\<close>. A Python \<^verbatim>\<open>str\<close> is a
  \<^typ>\<open>string\<close> in which every \<^typ>\<open>char\<close> stands for one code point below 256, so
  \<^const>\<open>length\<close> counts code points as \<^verbatim>\<open>len\<close> does. Python integers are
  \<^typ>\<open>int\<close>, list lengths are \<^typ>\<open>nat\<close>. Every exception the code can meet is a
  value of \<open>exn\<close>; a computation that may raise returns \<open>exn + 'a\<close>.
\<close>

datatype exn =
    ValueError
  | AttributeError
  | BadValsizeError
  | IndexError
  | TimeoutError
  | KeyboardInterrupt
  | ZeroDivisionError
  | OtherError string

definition tab :: char where
  "tab = CHR 0x09"

definition newline :: char where
  "newline = CHR 0x0A"

text \<open>\<^verbatim>\<open>str.isspace\<close> on the code points below 256.\<close>

definition isspace :: "char \<Rightarrow> bool" where
  "isspace c =
     (let n = (of_char c :: nat)
      in (9 \<le> n \<and> n \<le> 13) \<or> (28 \<le> n \<and> n \<le> 32) \<or> n = 133 \<or> n = 160)"

text \<open>
  \<^verbatim>\<open>text.split()\<close>: the maximal runs of non-whitespace, in order; \<open>cur\<close> is the
  run being read.
\<close>

fun split_ws :: "string \<Rightarrow> string \<Rightarrow> string list" where
  "split_ws cur [] = (if cur = [] then [] else [cur])"
| "split_ws cur (c # cs) =
     (if isspace c then (if cur = [] then split_ws [] cs else cur # split_ws [] cs)
      else split_ws (cur @ [c]) cs)"

definition str_split :: "string \<Rightarrow> string list" where
  "str_split s = split_ws [] s"

text \<open>\<^verbatim>\<open>line.split(sep)\<close> for a separator of one character: empty pieces are kept.\<close>

fun split_on :: "char \<Rightarrow> string \<Rightarrow> string \<Rightarrow> string list" where
  "split_on sep cur [] = [cur]"
| "split_on sep cur (c # cs) =
     (if c = sep then cur # split_on sep [] cs else split_on sep (cur @ [c]) cs)"

definition str_strip :: "string \<Rightarrow> string" where
  "str_strip s = dropWhile isspace (rev (dropWhile isspace (rev s)))"

text \<open>\<^verbatim>\<open>str.lower\<close> on the code points below 256.\<close>

definition lower_char :: "char \<Rightarrow> char" where
  "lower_char c =
     (let n = (of_char c :: nat)
      in if (65 \<le> n \<and> n \<le> 90) \<or> (192 \<le> n \<and> n \<le> 222 \<and> n \<noteq> 215)
         then char_of (n + 32) else c)"

definition str_lower :: "string \<Rightarrow> string" where
  "str_lower s = map lower_char s"

text \<open>
  \<^verbatim>\<open>int(s)\<close>: surrounding whitespace is dropped, then an optional sign and decimal
  digits, where single underscores may stand between digits. \<open>None\<close> is the
  \<^verbatim>\<open>ValueError\<close>.
\<close>

definition is_digit :: "char \<Rightarrow> bool" where
  "is_digit c = (let n = (of_char c :: nat) in 48 \<le> n \<and> n \<le> 57)"

definition digit_val :: "char \<Rightarrow> int" where
  "digit_val c = int (of_char c) - 48"

fun int_digits :: "int \<Rightarrow> string \<Rightarrow> int option" where
  "int_digits acc [] = Some acc"
| "int_digits acc [c] = (if is_digit c then Some (10 * acc + digit_val c) else None)"
| "int_digits acc (c # d # ds) =
     (if is_digit c then int_digits (10 * acc + digit_val c) (d # ds)
      else if c = CHR ''_'' \<and> is_digit d then int_digits (10 * acc + digit_val d) ds
      else None)"

definition int_unsigned :: "string \<Rightarrow> int option" where
  "int_unsigned s =
     (case s of [] \<Rightarrow> None
      | c # cs \<Rightarrow> if is_digit c then int_digits (digit_val c) cs else None)"

definition py_int :: "string \<Rightarrow> int option" where
  "py_int s =
     (case str_strip s of [] \<Rightarrow> None
      | c # cs \<Rightarrow>
          if c = CHR ''-'' then map_option uminus (int_unsigned cs)
          else if c = CHR ''+'' then int_unsigned cs
          else int_unsigned (c # cs))"

text \<open>The decimal text an f-string gives an integer.\<close>

definition digit_char :: "nat \<Rightarrow> char" where
  "digit_char d = char_of (48 + d)"

fun str_nat :: "nat \<Rightarrow> string" where
  "str_nat n = (if n < 10 then [digit_char n] else str_nat (n div 10) @ [digit_char (n mod 10)])"

declare str_nat.simps [simp del]

definition str_int :: "int \<Rightarrow> string" where
  "str_int i = (if i < 0 then CHR ''-'' # str_nat (nat (- i)) else str_nat (nat i))"

text \<open>
  \<^verbatim>\<open>xs[i:j]\<close>: a negative bound counts from the end, and both bounds are clamped to
  the list, so a slice never raises.
\<close>

definition py_slice :: "'a list \<Rightarrow> int \<Rightarrow> int \<Rightarrow> 'a list" where
  "py_slice xs i j =
     (let n = int (length xs);
          lo = (if i < 0 then max (i + n) 0 else min i n);
          hi = (if j < 0 then max (j + n) 0 else min j n)
      in take (nat (hi - lo)) (drop (nat lo) xs))"

section \<open>Data\<close>

text \<open>
  A \<^verbatim>\<open>Match\<close> of the fuzzysearch library, and the dictionary
  \<^verbatim>\<open>{"label", "text", "from", "to"}\<close> that \<^verbatim>\<open>match_candidate\<close> builds for a
  located field.
\<close>

record match =
  m_start :: int
  m_end :: int
  m_dist :: int
  m_matched :: string

record span =
  f_label :: string
  f_text :: string
  f_from :: int
  f_to :: int

text \<open>
  The whoosh queries the driver builds:
  \<^verbatim>\<open>FuzzyTerm(fieldname, text, maxdist, prefixlength)\<close> and \<^verbatim>\<open>Or(subqueries)\<close>.
\<close>

datatype query = FuzzyTerm string string int int | Or "query list"

text \<open>
  What the driver calls but does not define is a field of the environment:
  \<^item> \<open>find_near_matches\<close>: the fuzzysearch library, called as
    \<^verbatim>\<open>find_near_matches(text, ocr, max_l_dist=max_dist)\<close>;
  \<^item> \<open>generate_db_records\<close>: \<^verbatim>\<open>helper.generate_db_records(raw_label, raw_text)\<close>,
    the items of the dictionary it returns;
  \<^item> \<open>correct_overlaps\<close>: \<^verbatim>\<open>src.alignment.align_fuzzysearch.correct_overlaps\<close>;
  \<^item> \<open>searcher_search\<close>: \<^verbatim>\<open>searcher.search(query, limit=None)\<close>, the
    \<^verbatim>\<open>record_id\<close> of every hit in ranking order;
  \<^item> \<open>search_seconds\<close>: the wall-clock seconds an undecorated call of
    \<^verbatim>\<open>search_phrase\<close> on these arguments needs;
  \<^item> \<open>txn_ocr\<close>, \<open>txn_bib\<close>: the content of the two LMDB stores (\<open>None\<close> for
    an absent key), the second one holding the decoded JSON document, a dictionary
    from raw field name to raw field text;
  \<^item> \<open>normalise\<close>: the two replacement loops of \<^verbatim>\<open>load_ocr\<close> (lines 82 to 87),
    which rewrite or delete single code points; their replacement U+FFFD is no
    \<^typ>\<open>char\<close>, so the loops are a parameter.
\<close>

record env =
  find_near_matches :: "string \<Rightarrow> string \<Rightarrow> int \<Rightarrow> exn + match list"
  generate_db_records :: "string \<Rightarrow> string \<Rightarrow> exn + (string \<times> string) list"
  correct_overlaps :: "span list \<Rightarrow> exn + span list"
  searcher_search :: "query \<Rightarrow> exn + string list"
  search_seconds :: "(string \<times> string list) list \<Rightarrow> string \<Rightarrow> rat"
  txn_ocr :: "string \<Rightarrow> string option"
  txn_bib :: "string \<Rightarrow> (string \<times> string) list option"
  normalise :: "string \<Rightarrow> string"

text \<open>
  The variables \<^verbatim>\<open>main\<close> updates while it runs, and \<open>printed\<close>: the lines it
  prints whose text the inputs determine (the timing and memory reports and the
  printed query are left out).
\<close>

record state =
  nb_cards_searched :: nat
  matching_output :: string
  alignment_output :: string
  printed :: "string list"

section \<open>Distance budget\<close>

text \<open>
  \<^verbatim>\<open>get_max_dist(text, threshold=0.25, limit=6)\<close>. Python's
  \<^verbatim>\<open>int(len(text) * threshold)\<close> truncates the product of the length and a
  non-negative factor, which is its floor; the factor is kept as a rational (0.25 is
  the exact binary fraction 1/4, and its product with a length is exact).
\<close>

definition get_max_dist_with :: "'a list \<Rightarrow> rat \<Rightarrow> int \<Rightarrow> int" where
  "get_max_dist_with text threshold limit =
     (if length text < 6 then 1
      else if length text < 11 then 2
      else min \<lfloor>of_nat (length text) * threshold\<rfloor> limit)"

definition get_max_dist :: "'a list \<Rightarrow> int" where
  "get_max_dist text = get_max_dist_with text (1 / 4) 6"

section \<open>Query builder and candidate retrieval\<close>

text \<open>
  Modelled from the spec: the decorator \<^verbatim>\<open>timeout\<close> of
  \<^verbatim>\<open>src.alignment.timeout\<close>, which the sources do not hold. The spec asks
  for "a hard wall-clock execution budget" under which "on timeout, the operation is
  abandoned": a call that needs more than \<open>budget\<close> seconds raises
  \<^verbatim>\<open>TimeoutError\<close> in place of its outcome.
\<close>

definition timeout :: "rat \<Rightarrow> rat \<Rightarrow> exn + 'a \<Rightarrow> exn + 'a" where
  "timeout budget seconds outcome = (if budget < seconds then Inl TimeoutError else outcome)"

text \<open>
  The body of \<^verbatim>\<open>search_phrase\<close>, lines 50 to 76: the three nested loops append
  to \<^verbatim>\<open>fuzzy_terms\<close>. (\<^verbatim>\<open>max_dist\<close> of line 54 is computed and never used.)
\<close>

definition add_word_terms :: "string \<Rightarrow> string \<Rightarrow> query list \<Rightarrow> query list" where
  "add_word_terms label word fuzzy_terms =
     (if label = ''Author''
      then (fuzzy_terms @ [FuzzyTerm ''author1'' word 2 0]) @ [FuzzyTerm ''author2'' word 2 0]
      else fuzzy_terms @ [FuzzyTerm (str_lower label) word 2 0])"

definition add_text_terms :: "string \<Rightarrow> string \<Rightarrow> query list \<Rightarrow> query list" where
  "add_text_terms label text fuzzy_terms =
     fold (add_word_terms label) (filter (\<lambda>word. length word > 3) (str_split text)) fuzzy_terms"

definition add_label_terms :: "string \<times> string list \<Rightarrow> query list \<Rightarrow> query list" where
  "add_label_terms item fuzzy_terms =
     (case item of (label, texts) \<Rightarrow> fold (add_text_terms label) texts fuzzy_terms)"

definition build_query :: "(string \<times> string list) list \<Rightarrow> query" where
  "build_query alignments = Or (fold add_label_terms alignments [])"

definition search_phrase :: "env \<Rightarrow> (string \<times> string list) list \<Rightarrow> string \<Rightarrow> exn + string list" where
  "search_phrase env alignments ocr =
     timeout 60 (search_seconds env alignments ocr) (searcher_search env (build_query alignments))"

section \<open>Reverse verification of one candidate\<close>

text \<open>
  \<^verbatim>\<open>min(matches, key=lambda x: x.dist, default=None)\<close>: the first element of the
  least key, \<open>None\<close> for the empty list.
\<close>

fun min_dist_from :: "match \<Rightarrow> match list \<Rightarrow> match" where
  "min_dist_from best [] = best"
| "min_dist_from best (x # xs) = min_dist_from (if m_dist x < m_dist best then x else best) xs"

definition min_by_dist :: "match list \<Rightarrow> match option" where
  "min_by_dist matches = (case matches of [] \<Rightarrow> None | m # ms \<Rightarrow> Some (min_dist_from m ms))"

text \<open>
  Lines 103 to 113, the body of the inner loop of \<^verbatim>\<open>match_candidate\<close>: a
  \<^verbatim>\<open>ValueError\<close> of the library skips the field, any other exception leaves the
  function. A \<^verbatim>\<open>Match\<close> is always truthy, so \<^verbatim>\<open>if lowest\<close> only tests for
  \<^verbatim>\<open>None\<close>.
\<close>

definition match_field :: "env \<Rightarrow> string \<Rightarrow> string \<times> string \<Rightarrow> span list \<Rightarrow> exn + span list" where
  "match_field env ocr item flds =
     (case item of (label, text) \<Rightarrow>
        (case find_near_matches env text ocr (get_max_dist text) of
           Inl e \<Rightarrow> (if e = ValueError then Inr flds else Inl e)
         | Inr matches \<Rightarrow>
             (case min_by_dist matches of
                None \<Rightarrow> Inr flds
              | Some lowest \<Rightarrow>
                  Inr (flds @ [\<lparr>f_label = label, f_text = m_matched lowest,
                                  f_from = m_start lowest, f_to = m_end lowest\<rparr>]))))"

fun match_items :: "env \<Rightarrow> string \<Rightarrow> (string \<times> string) list \<Rightarrow> span list \<Rightarrow> exn + span list" where
  "match_items env ocr [] flds = Inr flds"
| "match_items env ocr (item # items) flds =
     (case match_field env ocr item flds of
        Inl e \<Rightarrow> Inl e
      | Inr flds' \<Rightarrow> match_items env ocr items flds')"

text \<open>Lines 99 to 113, the loop over \<^verbatim>\<open>db_entries.items()\<close>.\<close>

fun match_entries :: "env \<Rightarrow> string \<Rightarrow> (string \<times> string) list \<Rightarrow> span list \<Rightarrow> exn + span list" where
  "match_entries env ocr [] flds = Inr flds"
| "match_entries env ocr ((raw_label, raw_text) # entries) flds =
     (case generate_db_records env raw_label raw_text of
        Inl e \<Rightarrow> Inl e
      | Inr items \<Rightarrow>
          (case match_items env ocr items flds of
             Inl e \<Rightarrow> Inl e
           | Inr flds' \<Rightarrow> match_entries env ocr entries flds'))"

text \<open>Lines 121 to 122: the text of a span is read again from the OCR text.\<close>

definition reslice :: "string \<Rightarrow> span \<Rightarrow> span" where
  "reslice ocr line = line\<lparr>f_text := py_slice ocr (f_from line) (f_to line)\<rparr>"

text \<open>
  \<^verbatim>\<open>match_candidate(ocr, db_entries)\<close>: the lines it prints, and the list it
  returns or the exception that leaves it. The bare \<^verbatim>\<open>except\<close> around
  \<^verbatim>\<open>correct_overlaps\<close> catches every exception.
\<close>

definition match_candidate ::
  "env \<Rightarrow> string \<Rightarrow> (string \<times> string) list \<Rightarrow> string list \<times> (exn + span list)" where
  "match_candidate env ocr db_entries =
     (case match_entries env ocr db_entries [] of
        Inl e \<Rightarrow> ([], Inl e)
      | Inr flds \<Rightarrow>
          (case correct_overlaps env flds of
             Inl e \<Rightarrow> ([''Error during correcting overlaps''], Inr [])
           | Inr flds' \<Rightarrow> ([], Inr (map (reslice ocr) flds'))))"

section \<open>Reading one input line\<close>

text \<open>
  \<^verbatim>\<open>txn.get(key)\<close> of LMDB: a key of length zero is refused with
  \<^verbatim>\<open>lmdb.BadValsizeError\<close>; any other key gives its value, or \<^verbatim>\<open>None\<close> when
  the store does not hold it.
\<close>

definition txn_get :: "(string \<Rightarrow> 'v option) \<Rightarrow> string \<Rightarrow> exn + 'v option" where
  "txn_get store key = (if key = [] then Inl BadValsizeError else Inr (store key))"

text \<open>
  \<^verbatim>\<open>load_ocr(path, txn)\<close>: \<^verbatim>\<open>txn.get(path.encode()).decode()\<close> raises
  \<^verbatim>\<open>AttributeError\<close> when \<^verbatim>\<open>txn.get\<close> gives \<^verbatim>\<open>None\<close>.
\<close>

definition load_ocr :: "env \<Rightarrow> string \<Rightarrow> exn + string" where
  "load_ocr env path =
     (case txn_get (txn_ocr env) path of
        Inl e \<Rightarrow> Inl e
      | Inr None \<Rightarrow> Inl AttributeError
      | Inr (Some text) \<Rightarrow> Inr (normalise env text))"

text \<open>
  \<^verbatim>\<open>result[label].append(v)\<close>, with the \<^verbatim>\<open>KeyError\<close> branch that creates the
  entry; a dictionary keeps its keys in insertion order.
\<close>

fun dict_append :: "string \<Rightarrow> 'v \<Rightarrow> (string \<times> 'v list) list \<Rightarrow> (string \<times> 'v list) list" where
  "dict_append k v [] = [(k, [v])]"
| "dict_append k v ((k', vs) # rest) =
     (if k = k' then (k', vs @ [v]) # rest else (k', vs) # dict_append k v rest)"

text \<open>
  \<^verbatim>\<open>label, start, end = alignment.split()\<close> raises \<^verbatim>\<open>ValueError\<close> unless there
  are exactly three pieces, and so does \<^verbatim>\<open>int\<close> on a piece that is no integer.
\<close>

definition parse_alignment :: "string \<Rightarrow> exn + string \<times> int \<times> int" where
  "parse_alignment alignment =
     (case str_split alignment of
        [label, start, end'] \<Rightarrow>
          (case py_int start of
             None \<Rightarrow> Inl ValueError
           | Some i \<Rightarrow> (case py_int end' of None \<Rightarrow> Inl ValueError | Some j \<Rightarrow> Inr (label, i, j)))
      | _ \<Rightarrow> Inl ValueError)"

fun parse_alignments_from ::
  "(string \<times> string list) list \<Rightarrow> string list \<Rightarrow> string \<Rightarrow> exn + (string \<times> string list) list" where
  "parse_alignments_from result [] ocr = Inr result"
| "parse_alignments_from result (alignment # alignments) ocr =
     (case parse_alignment alignment of
        Inl e \<Rightarrow> Inl e
      | Inr (label, i, j) \<Rightarrow>
          parse_alignments_from (dict_append label (py_slice ocr i j) result) alignments ocr)"

definition parse_alignments :: "string list \<Rightarrow> string \<Rightarrow> exn + (string \<times> string list) list" where
  "parse_alignments alignments ocr = parse_alignments_from [] alignments ocr"

section \<open>Scoring and selection\<close>

text \<open>
  Lines 207 to 209: the record document of every hit is read from the record store
  with \<^verbatim>\<open>txn_bib.get(r["record_id"].encode()).decode()\<close>, which raises
  \<^verbatim>\<open>AttributeError\<close> when \<^verbatim>\<open>txn_bib.get\<close> gives \<^verbatim>\<open>None\<close>.
\<close>

fun load_records :: "env \<Rightarrow> string list \<Rightarrow> exn + (string \<times> string) list list" where
  "load_records env [] = Inr []"
| "load_records env (r # rs) =
     (case txn_get (txn_bib env) r of
        Inl e \<Rightarrow> Inl e
      | Inr None \<Rightarrow> Inl AttributeError
      | Inr (Some doc) \<Rightarrow>
          (case load_records env rs of Inl e \<Rightarrow> Inl e | Inr docs \<Rightarrow> Inr (doc # docs)))"

text \<open>Line 210: \<^verbatim>\<open>[match_candidate(ocr, r) for r in records]\<close>.\<close>

fun match_all ::
  "env \<Rightarrow> string \<Rightarrow> (string \<times> string) list list \<Rightarrow> string list \<times> (exn + span list list)" where
  "match_all env ocr [] = ([], Inr [])"
| "match_all env ocr (r # rs) =
     (case match_candidate env ocr r of
        (out, Inl e) \<Rightarrow> (out, Inl e)
      | (out, Inr m) \<Rightarrow>
          (case match_all env ocr rs of
             (out', Inl e) \<Rightarrow> (out @ out', Inl e)
           | (out', Inr ms) \<Rightarrow> (out @ out', Inr (m # ms))))"

text \<open>
  \<^verbatim>\<open>max(match_scores)\<close> and \<^verbatim>\<open>np.argmax(match_scores)\<close> on a list with first
  element \<open>x\<close>: the greatest score, and the first index that holds it.
\<close>

definition max_from :: "nat \<Rightarrow> nat list \<Rightarrow> nat" where
  "max_from x xs = fold max xs x"

fun argmax_from :: "nat \<Rightarrow> nat \<Rightarrow> nat \<Rightarrow> nat list \<Rightarrow> nat" where
  "argmax_from best_i best i [] = best_i"
| "argmax_from best_i best i (x # xs) =
     (if best < x then argmax_from i x (Suc i) xs else argmax_from best_i best (Suc i) xs)"

text \<open>
  Lines 214 to 217: the index of the candidate that is reported, \<open>None\<close> when there
  is no candidate or the greatest score is below \<^verbatim>\<open>args.min_matched_lines\<close>.
\<close>

definition select_candidate :: "int \<Rightarrow> nat list \<Rightarrow> nat option" where
  "select_candidate min_matched_lines match_scores =
     (case match_scores of
        [] \<Rightarrow> None
      | x # xs \<Rightarrow>
          if int (max_from x xs) \<ge> min_matched_lines then Some (argmax_from 0 x 1 xs) else None)"

definition render_span :: "span \<Rightarrow> string" where
  "render_span f_line =
     tab # f_label f_line @ '' '' @ str_int (f_from f_line) @ '' '' @ str_int (f_to f_line)"

text \<open>
  Lines 211 to 227 for the hits \<open>results\<close> and their verified alignments
  \<open>matches\<close>; \<^verbatim>\<open>results[i]\<close> raises \<^verbatim>\<open>IndexError\<close> out of range.
\<close>

definition report_best ::
  "int \<Rightarrow> string \<Rightarrow> string list \<Rightarrow> span list list \<Rightarrow> state \<Rightarrow> state \<times> exn option" where
  "report_best min_matched_lines file_path results matches st =
     (let match_scores = map length matches;
          st1 = st\<lparr>printed := printed st @
                  [''Found '' @ str_nat (length matches) @ '' candidates with scores:.'']\<rparr>
      in if matches = [] then (st1, None)
         else
           (case select_candidate min_matched_lines match_scores of
              Some i \<Rightarrow>
                if i < length results then
                  (st1\<lparr>printed := printed st1 @
                         [''Best match for file '' @ file_path @ '' is '' @ results ! i @
                          '' with score: '' @ str_nat (match_scores ! i)],
                       matching_output := matching_output st1 @
                         file_path @ [tab] @ results ! i @ [tab] @ str_nat (match_scores ! i) @ [newline],
                       alignment_output := alignment_output st1 @
                         file_path @ concat (map render_span (matches ! i)) @ [newline]\<rparr>,
                   None)
                else (st1, Some IndexError)
            | None \<Rightarrow>
                (st1\<lparr>printed := printed st1 @
                       [''Not enough matches found for file '' @ file_path @
                        '' (must be higher than '' @ str_int min_matched_lines]\<rparr>,
                 None)))"

section \<open>The main loop\<close>

text \<open>
  Lines 186 to 227, the body of the loop for one line of the input file: the state
  after it, and the exception that leaves it, if any. A \<^verbatim>\<open>TimeoutError\<close> of
  \<^verbatim>\<open>search_phrase\<close> is caught and the loop goes on to the next line; nothing else
  is caught here.
\<close>

definition process_line :: "env \<Rightarrow> int \<Rightarrow> state \<Rightarrow> string \<Rightarrow> state \<times> exn option" where
  "process_line env min_matched_lines st line =
     (case split_on tab [] line of
        [] \<Rightarrow> (st, Some ValueError)
      | file_path # alignments \<Rightarrow>
          (let st1 = st\<lparr>printed := printed st @ ['''', ''Matching '' @ file_path]\<rparr>
           in case load_ocr env (str_strip file_path) of
                Inl e \<Rightarrow> (st1, Some e)
              | Inr ocr \<Rightarrow>
                  (case parse_alignments alignments ocr of
                     Inl e \<Rightarrow> (st1, Some e)
                   | Inr parsed_alignments \<Rightarrow>
                       (let st2 = st1\<lparr>nb_cards_searched := nb_cards_searched st1 + 1\<rparr>
                        in case search_phrase env parsed_alignments ocr of
                             Inl e \<Rightarrow>
                               if e = TimeoutError
                               then (st2\<lparr>printed := printed st2 @
                                       [''Timeout reached on file '' @ file_path @ '', skipping'']\<rparr>,
                                     None)
                               else (st2, Some e)
                           | Inr results \<Rightarrow>
                               (case load_records env results of
                                  Inl e \<Rightarrow> (st2, Some e)
                                | Inr records \<Rightarrow>
                                    (case match_all env ocr records of
                                       (out, Inl e) \<Rightarrow> (st2\<lparr>printed := printed st2 @ out\<rparr>, Some e)
                                     | (out, Inr matches) \<Rightarrow>
                                         report_best min_matched_lines file_path results matches
                                           (st2\<lparr>printed := printed st2 @ out\<rparr>)))))))"

fun main_loop :: "env \<Rightarrow> int \<Rightarrow> state \<Rightarrow> string list \<Rightarrow> state \<times> exn option" where
  "main_loop env min_matched_lines st [] = (st, None)"
| "main_loop env min_matched_lines st (line # lines) =
     (case process_line env min_matched_lines st line of
        (st', Some e) \<Rightarrow> (st', Some e)
      | (st', None) \<Rightarrow> main_loop env min_matched_lines st' lines)"

definition initial_state :: state where
  "initial_state =
     \<lparr>nb_cards_searched = 0, matching_output = [], alignment_output = [], printed = []\<rparr>"

text \<open>
  Lines 232 to 240: \<^verbatim>\<open>dur / nb_records\<close> raises \<^verbatim>\<open>ZeroDivisionError\<close> when no
  card was counted; otherwise \<^verbatim>\<open>save_results\<close> writes \<^verbatim>\<open>alignment.txt\<close> and
  \<^verbatim>\<open>matching.txt\<close>, the pair returned here.
\<close>

definition finish :: "state \<Rightarrow> exn + string \<times> string" where
  "finish st =
     (if nb_cards_searched st = 0 then Inl ZeroDivisionError
      else Inr (alignment_output st, matching_output st))"

text \<open>
  \<^verbatim>\<open>main\<close> from line 163 on, for the lines \<open>all_lines\<close> of the inference file and
  the value \<open>idx\<close> that \<^verbatim>\<open>random.randint(0, 2e6)\<close> returned. The loop runs over
  \<^verbatim>\<open>all_lines[idx:idx+10]\<close>. Only \<^verbatim>\<open>KeyboardInterrupt\<close> is caught around the
  loop; any other exception leaves \<^verbatim>\<open>main\<close> before the results are saved.
\<close>

definition window :: "int \<Rightarrow> string list \<Rightarrow> string list" where
  "window idx all_lines = py_slice all_lines idx (idx + 10)"

definition main :: "env \<Rightarrow> int \<Rightarrow> int \<Rightarrow> string list \<Rightarrow> exn + string \<times> string" where
  "main env min_matched_lines idx all_lines =
     (case main_loop env min_matched_lines initial_state (window idx all_lines) of
        (st, Some e) \<Rightarrow> if e = KeyboardInterrupt then finish st else Inl e
      | (st, None) \<Rightarrow> finish st)"

section \<open>Edit distance\<close>


section \<open>A small catalogue for the examples\<close>

text \<open>
  One scanned card, four records and canned answers of the collaborators, on which
  the examples below run the driver.
\<close>

definition demo_ocr :: string where
  "demo_ocr = ''Shakespeae, William: Hamlet. Lomdon, London, London 1603''"

definition demo_matches :: "string \<Rightarrow> match list" where
  "demo_matches pattern =
     (if pattern = ''Shakespeare''
      then [\<lparr>m_start = 0, m_end = 10, m_dist = 1, m_matched = ''Shakespeae''\<rparr>]
      else if pattern = ''Hamlet''
      then [\<lparr>m_start = 21, m_end = 27, m_dist = 0, m_matched = ''Hamlet''\<rparr>]
      else if pattern = ''London''
      then [\<lparr>m_start = 29, m_end = 35, m_dist = 1, m_matched = ''Lomdon''\<rparr>,
            \<lparr>m_start = 37, m_end = 43, m_dist = 0, m_matched = ''London''\<rparr>,
            \<lparr>m_start = 45, m_end = 51, m_dist = 0, m_matched = ''London''\<rparr>]
      else [])"

text \<open>
  The canned library refuses an empty pattern with \<^verbatim>\<open>ValueError\<close>, and answers a
  pattern that is no longer than \<^verbatim>\<open>max_l_dist\<close> the way the Levenshtein search
  of fuzzysearch does: with an empty match at every offset of the sequence, each at
  distance \<^verbatim>\<open>len(pattern)\<close>.
\<close>

definition demo_library :: "string \<Rightarrow> string \<Rightarrow> int \<Rightarrow> exn + match list" where
  "demo_library pattern sequence max_l_dist =
     (if pattern = [] then Inl ValueError
      else if int (length pattern) \<le> max_l_dist
      then Inr (map (\<lambda>i. \<lparr>m_start = int i, m_end = int i,
                          m_dist = int (length pattern), m_matched = []\<rparr>)
                  [0 ..< Suc (length sequence)])
      else if sequence = demo_ocr
      then Inr (filter (\<lambda>m. m_dist m \<le> max_l_dist) (demo_matches pattern))
      else Inr [])"

definition demo_bib :: "string \<Rightarrow> (string \<times> string) list option" where
  "demo_bib =
     [''rec0'' \<mapsto> [(''Title'', ''Macbeth'')],
      ''rec1'' \<mapsto> [(''Title'', ''Macbeth''), (''Place'', ''London'')],
      ''rec2'' \<mapsto> [(''Author'', ''Shakespeare''), (''Title'', ''Hamlet'')],
      ''rec3'' \<mapsto> [(''Title'', ''Hamlet''), (''Author'', ''Shakespeare'')]]"

definition demo_env :: env where
  "demo_env =
     \<lparr>find_near_matches = demo_library,
      generate_db_records = (\<lambda>raw_label raw_text. Inr [(raw_label, raw_text)]),
      correct_overlaps = (\<lambda>flds. Inr flds),
      searcher_search = (\<lambda>query. Inr [''rec1'', ''rec2'', ''rec3'']),
      search_seconds = (\<lambda>alignments ocr. 1),
      txn_ocr = [''card1'' \<mapsto> demo_ocr],
      txn_bib = demo_bib,
      normalise = (\<lambda>text. text)\<rparr>"

text \<open>The same catalogue when retrieval ranks only \<open>rec0\<close>, none of whose fields is on the card.\<close>

definition demo_env_unmatched :: env where
  "demo_env_unmatched = demo_env\<lparr>searcher_search := (\<lambda>query. Inr [''rec0''])\<rparr>"

definition demo_line :: string where
  "demo_line = ''card1'' @ [tab] @ ''Author 0 19'' @ [tab] @ ''Title 21 27'' @ [newline]"

text \<open>What the driver computes on the way for \<open>demo_line\<close>.\<close>

definition demo_parsed :: "(string \<times> string list) list" where
  "demo_parsed = [(''Author'', [''Shakespeae, William'']), (''Title'', [''Hamlet''])]"

definition demo_verified :: "span list list" where
  "demo_verified =
     [[\<lparr>f_label = ''Place'', f_text = ''London'', f_from = 37, f_to = 43\<rparr>],
      [\<lparr>f_label = ''Author'', f_text = ''Shakespeae'', f_from = 0, f_to = 10\<rparr>,
       \<lparr>f_label = ''Title'', f_text = ''Hamlet'', f_from = 21, f_to = 27\<rparr>],
      [\<lparr>f_label = ''Title'', f_text = ''Hamlet'', f_from = 21, f_to = 27\<rparr>,
       \<lparr>f_label = ''Author'', f_text = ''Shakespeae'', f_from = 0, f_to = 10\<rparr>]]"


text \<open>
  A second input line for the same card, a retrieval that needs 61 seconds for the
  query of \<open>demo_line\<close>, and a resolver that raises.
\<close>

definition demo_line_title :: string where
  "demo_line_title = ''card1'' @ [tab] @ ''Title 21 27'' @ [newline]"

definition demo_env_slow :: env where
  "demo_env_slow =
     demo_env\<lparr>search_seconds := (\<lambda>alignments ocr. if alignments = demo_parsed then 61 else 1)\<rparr>"

definition demo_env_failing :: env where
  "demo_env_failing = demo_env\<lparr>correct_overlaps := (\<lambda>flds. Inl (OtherError ''overlap''))\<rparr>"

text \<open>
  Three defective inputs: a line whose alignment has two pieces, a line for a card
  that the OCR store does not hold, and a ranking that names a record the record
  store does not hold.
\<close>

definition demo_line_malformed :: string where
  "demo_line_malformed = ''card1'' @ [tab] @ ''Author 0'' @ [newline]"

definition demo_line_unknown :: string where
  "demo_line_unknown = ''card9'' @ [tab] @ ''Author 0 19'' @ [newline]"

definition demo_env_missing_record :: env where
  "demo_env_missing_record = demo_env\<lparr>searcher_search := (\<lambda>query. Inr [''rec1'', ''rec9''])\<rparr>"


section \<open>Properties of the distance budget\<close>

lemma floor_quarter: "\<lfloor>(of_nat n :: rat) * (1 / 4)\<rfloor> = int (n div 4)"
proof -
  have "\<lfloor>(of_nat n :: rat) / of_nat 4\<rfloor> = int (n div 4)"
    by (rule floor_divide_of_nat_eq)
  then show ?thesis by simp
qed

lemma floor_quarter_real: "\<lfloor>real n * 0.25\<rfloor> = int (n div 4)"
proof -
  have "\<lfloor>(of_nat n :: real) / of_nat 4\<rfloor> = int (n div 4)"
    by (rule floor_divide_of_nat_eq)
  then show ?thesis by simp
qed

lemma get_max_dist_eq:
  "get_max_dist text =
     (if length text < 6 then 1 else if length text < 11 then 2
      else min (int (length text div 4)) 6)"
  unfolding get_max_dist_def get_max_dist_with_def floor_quarter by simp

lemma get_max_dist_mono:
  assumes "length text \<le> length text'"
  shows "get_max_dist text \<le> get_max_dist text'"
proof -
  have "length text div 4 \<le> length text' div 4"
    using assms by (rule div_le_mono)
  moreover have "11 \<le> length text' \<Longrightarrow> 2 \<le> length text' div 4"
    by arith
  ultimately show ?thesis
    using assms unfolding get_max_dist_eq by (auto simp: min_def)
qed

text \<open>
  C2. The distance budget \<open>get_max_dist\<close> is 1 for a text of fewer than 6 code
  points, 2 for one of fewer than 11, and \<open>min(floor(length * 0.25), 6)\<close> for every
  longer one; it never exceeds 6, and a text that is at least as long as another has
  at least the other's budget.
\<close>

theorem get_max_dist_schedule:
  "get_max_dist text =
     (if length text < 6 then 1
      else if length text < 11 then 2
      else min \<lfloor>real (length text) * 0.25\<rfloor> 6)
   \<and> get_max_dist text \<le> 6
   \<and> (length text \<le> length text' \<longrightarrow> get_max_dist text \<le> get_max_dist text')"
proof (intro conjI impI)
  show "get_max_dist text =
     (if length text < 6 then 1
      else if length text < 11 then 2
      else min \<lfloor>real (length text) * 0.25\<rfloor> 6)"
    unfolding floor_quarter_real by (rule get_max_dist_eq)
  show "get_max_dist text \<le> 6"
    unfolding get_max_dist_eq by simp
  show "get_max_dist text \<le> get_max_dist text'" if "length text \<le> length text'"
    using that by (rule get_max_dist_mono)
qed

theorem get_max_dist_schedule_witness:
  "length ''Hamlet'' \<le> length ''William Shakespeare''
   \<and> get_max_dist ''Hamlet'' = 2
   \<and> get_max_dist ''William Shakespeare'' = 4
   \<and> get_max_dist ''Hamlet'' \<le> get_max_dist ''William Shakespeare''"
  using get_max_dist_schedule [of "''Hamlet''" "''William Shakespeare''"]
  by (simp add: get_max_dist_eq)

section \<open>The distance-bounded matcher\<close>







section \<open>Selection of the best candidate\<close>

lemma argmax_from_spec:
  assumes "bi < length pre" and "\<forall>j < length pre. pre ! j \<le> pre ! bi"
    and "\<forall>j < bi. pre ! j < pre ! bi"
  shows "argmax_from bi (pre ! bi) (length pre) xs < length (pre @ xs)
     \<and> (\<forall>j < length (pre @ xs).
           (pre @ xs) ! j \<le> (pre @ xs) ! argmax_from bi (pre ! bi) (length pre) xs)
     \<and> (\<forall>j < argmax_from bi (pre ! bi) (length pre) xs.
           (pre @ xs) ! j < (pre @ xs) ! argmax_from bi (pre ! bi) (length pre) xs)"
  using assms
proof (induction xs arbitrary: pre bi)
  case Nil
  then show ?case by simp
next
  case (Cons x xs)
  let ?pre = "pre @ [x]"
  have len: "length ?pre = Suc (length pre)" by simp
  have app: "?pre @ xs = pre @ x # xs" by simp
  show ?case
  proof (cases "pre ! bi < x")
    case True
    have bi': "length pre < length ?pre" by simp
    have at: "?pre ! length pre = x" by simp
    have le: "\<forall>j < length ?pre. ?pre ! j \<le> ?pre ! length pre"
    proof (intro allI impI)
      fix j assume "j < length ?pre"
      then consider "j < length pre" | "j = length pre" by fastforce
      then show "?pre ! j \<le> ?pre ! length pre"
      proof cases
        case 1
        with Cons.prems(2) True show ?thesis by (simp add: nth_append) (meson le_less_trans less_imp_le)
      next
        case 2
        then show ?thesis by simp
      qed
    qed
    have lt: "\<forall>j < length pre. ?pre ! j < ?pre ! length pre"
      using Cons.prems(2) True by (simp add: nth_append) (meson le_less_trans)
    from Cons.IH [of "length pre" ?pre, OF bi' le lt] True
    show ?thesis unfolding at len app by simp
  next
    case False
    have bi': "bi < length ?pre" using Cons.prems(1) by simp
    have at: "?pre ! bi = pre ! bi" using Cons.prems(1) by (simp add: nth_append)
    have le: "\<forall>j < length ?pre. ?pre ! j \<le> ?pre ! bi"
    proof (intro allI impI)
      fix j assume "j < length ?pre"
      then consider "j < length pre" | "j = length pre" by fastforce
      then show "?pre ! j \<le> ?pre ! bi"
      proof cases
        case 1
        with Cons.prems(2) show ?thesis unfolding at by (simp add: nth_append)
      next
        case 2
        with False show ?thesis unfolding at by simp
      qed
    qed
    have lt: "\<forall>j < bi. ?pre ! j < ?pre ! bi"
      using Cons.prems(1,3) unfolding at by (simp add: nth_append)
    from Cons.IH [of bi ?pre, OF bi' le lt] False
    show ?thesis unfolding at len app by simp
  qed
qed

lemma argmax_first_greatest:
  "argmax_from 0 x 1 xs < length (x # xs)
   \<and> (\<forall>j < length (x # xs). (x # xs) ! j \<le> (x # xs) ! argmax_from 0 x 1 xs)
   \<and> (\<forall>j < argmax_from 0 x 1 xs. (x # xs) ! j < (x # xs) ! argmax_from 0 x 1 xs)"
  using argmax_from_spec [of 0 "[x]" xs] by simp

lemma max_from_argmax: "max_from x xs = (x # xs) ! argmax_from 0 x 1 xs"
proof -
  let ?i = "argmax_from 0 x 1 xs"
  have "max_from x xs = Max (set (x # xs))"
    unfolding max_from_def by (rule Max.set_eq_fold [symmetric])
  also have "\<dots> = (x # xs) ! ?i"
  proof (rule Max_eqI)
    show "finite (set (x # xs))" by simp
    show "(x # xs) ! ?i \<in> set (x # xs)"
      using argmax_first_greatest [of x xs] nth_mem by blast
    show "y \<le> (x # xs) ! ?i" if "y \<in> set (x # xs)" for y
      using that argmax_first_greatest [of x xs] by (metis in_set_conv_nth)
  qed
  finally show ?thesis .
qed

lemma select_candidate_Some:
  assumes "select_candidate min_matched_lines scores = Some i"
  shows "i < length scores \<and> min_matched_lines \<le> int (scores ! i)
     \<and> (\<forall>j < length scores. scores ! j \<le> scores ! i)
     \<and> (\<forall>j < i. scores ! j < scores ! i)"
proof (cases scores)
  case Nil
  with assms show ?thesis by (simp add: select_candidate_def)
next
  case (Cons x xs)
  with assms have i: "i = argmax_from 0 x 1 xs" and ge: "min_matched_lines \<le> int (max_from x xs)"
    by (auto simp: select_candidate_def split: if_splits)
  show ?thesis
    using argmax_first_greatest [of x xs] ge unfolding max_from_argmax Cons i by simp
qed

lemma select_candidate_None:
  assumes "select_candidate min_matched_lines scores = None" and "j < length scores"
  shows "int (scores ! j) < min_matched_lines"
proof (cases scores)
  case Nil
  with assms show ?thesis by simp
next
  case (Cons x xs)
  with assms have lt: "int (max_from x xs) < min_matched_lines"
    by (auto simp: select_candidate_def split: if_splits)
  have "scores ! j \<le> max_from x xs"
    using argmax_first_greatest [of x xs] assms(2) unfolding max_from_argmax Cons by simp
  with lt show ?thesis by simp
qed

lemma select_candidate_cases:
  assumes "scores \<noteq> []"
  shows "\<exists>i < length scores.
     (\<forall>j < length scores. scores ! j \<le> scores ! i) \<and> (\<forall>j < i. scores ! j < scores ! i)
     \<and> select_candidate min_matched_lines scores =
         (if min_matched_lines \<le> int (scores ! i) then Some i else None)"
proof -
  from assms obtain x xs where Cons: "scores = x # xs" by (cases scores) auto
  let ?i = "argmax_from 0 x 1 xs"
  have "select_candidate min_matched_lines scores =
         (if min_matched_lines \<le> int (scores ! ?i) then Some ?i else None)"
    unfolding Cons select_candidate_def max_from_argmax by simp
  with argmax_first_greatest [of x xs] show ?thesis unfolding Cons by blast
qed

lemma load_records_nth:
  assumes "load_records env results = Inr records"
  shows "length records = length results
     \<and> (\<forall>j < length results. txn_bib env (results ! j) = Some (records ! j))"
  using assms
proof (induction results arbitrary: records)
  case Nil
  then show ?case by simp
next
  case (Cons r rs)
  from Cons.prems obtain doc docs where doc: "txn_bib env r = Some doc"
    and docs: "load_records env rs = Inr docs" and records: "records = doc # docs"
    by (auto simp: txn_get_def split: option.splits sum.splits if_splits)
  from Cons.IH [OF docs] doc show ?case
    unfolding records by (auto simp: nth_Cons split: nat.splits)
qed

lemma match_all_nth:
  assumes "match_all env ocr records = (out, Inr matches)"
  shows "length matches = length records
     \<and> (\<forall>j < length records. snd (match_candidate env ocr (records ! j)) = Inr (matches ! j))"
  using assms
proof (induction records arbitrary: out matches)
  case Nil
  then show ?case by simp
next
  case (Cons r rs)
  from Cons.prems obtain o1 m o2 ms where m: "match_candidate env ocr r = (o1, Inr m)"
    and ms: "match_all env ocr rs = (o2, Inr ms)" and matches: "matches = m # ms"
    by (auto split: prod.splits sum.splits)
  from Cons.IH [OF ms] m show ?case
    unfolding matches by (auto simp: nth_Cons split: nat.splits)
qed

lemma report_best_selected:
  assumes "select_candidate min_matched_lines (map length matches) = Some i"
    and "length results = length matches"
  shows "snd (report_best min_matched_lines file_path results matches st) = None
     \<and> matching_output (fst (report_best min_matched_lines file_path results matches st)) =
         matching_output st @ file_path @ [tab] @ results ! i @ [tab] @
           str_nat (length (matches ! i)) @ [newline]
     \<and> alignment_output (fst (report_best min_matched_lines file_path results matches st)) =
         alignment_output st @ file_path @ concat (map render_span (matches ! i)) @ [newline]"
proof -
  from select_candidate_Some [OF assms(1)] have i: "i < length matches" by simp
  then have "matches \<noteq> []" by auto
  with assms i show ?thesis by (simp add: report_best_def Let_def)
qed

lemma report_best_none:
  assumes "select_candidate min_matched_lines (map length matches) = None"
  shows "snd (report_best min_matched_lines file_path results matches st) = None
     \<and> matching_output (fst (report_best min_matched_lines file_path results matches st)) =
         matching_output st
     \<and> alignment_output (fst (report_best min_matched_lines file_path results matches st)) =
         alignment_output st"
  using assms by (simp add: report_best_def Let_def)

lemma match_candidate_score:
  assumes "match_candidate env ocr db_entries = (out, Inr m)"
  shows "\<exists>raw. match_entries env ocr db_entries [] = Inr raw
     \<and> length m = (case correct_overlaps env raw of Inl e \<Rightarrow> 0 | Inr resolved \<Rightarrow> length resolved)"
proof (cases "match_entries env ocr db_entries []")
  case (Inl e)
  with assms show ?thesis by (simp add: match_candidate_def)
next
  case (Inr raw)
  with assms have "length m =
      (case correct_overlaps env raw of Inl e \<Rightarrow> 0 | Inr resolved \<Rightarrow> length resolved)"
    by (auto simp: match_candidate_def split: sum.splits)
  with Inr show ?thesis by blast
qed

lemma process_line_report:
  assumes "split_on tab [] line = file_path # alignments"
    and "load_ocr env (str_strip file_path) = Inr ocr"
    and "parse_alignments alignments ocr = Inr parsed"
    and "search_phrase env parsed ocr = Inr results"
    and "load_records env results = Inr records"
    and "match_all env ocr records = (out, Inr matches)"
  shows "process_line env min_matched_lines st line =
     report_best min_matched_lines file_path results matches
       (st\<lparr>nb_cards_searched := nb_cards_searched st + 1,
           printed := printed st @ ['''', ''Matching '' @ file_path] @ out\<rparr>)"
  using assms by (simp add: process_line_def Let_def)

text \<open>
  C3. For every input line whose retrieval gives a non-empty list of hits, the score of
  each candidate is the length of the alignment that \<^verbatim>\<open>match_candidate\<close> returns
  for its record, which is the number of spans that \<^verbatim>\<open>correct_overlaps\<close> returns
  for the located fields of the record (and zero when it raises); there is a candidate of greatest score such that every candidate
  before it in the ranking has a strictly smaller score; when that score reaches
  \<^verbatim>\<open>min_matched_lines\<close> the line appended to the matching output names this
  candidate and its score and the alignment output gets its spans, and when the score
  is below \<^verbatim>\<open>min_matched_lines\<close> nothing is appended to either output.
\<close>

theorem selector_emits_first_best_candidate:
  assumes line: "split_on tab [] line = file_path # alignments"
    and ocr: "load_ocr env (str_strip file_path) = Inr ocr"
    and parsed: "parse_alignments alignments ocr = Inr parsed"
    and hits: "search_phrase env parsed ocr = Inr results"
    and nonempty: "results \<noteq> []"
    and docs: "load_records env results = Inr records"
    and verified: "match_all env ocr records = (out, Inr matches)"
  shows "\<exists>i < length results.
      length matches = length results
      \<and> (\<forall>j < length results. snd (match_candidate env ocr (records ! j)) = Inr (matches ! j))
      \<and> (\<forall>j < length results.
            \<exists>raw. match_entries env ocr (records ! j) [] = Inr raw
              \<and> length (matches ! j) =
                  (case correct_overlaps env raw of
                     Inl e \<Rightarrow> 0
                   | Inr resolved \<Rightarrow> length resolved))
      \<and> (\<forall>j < length results. length (matches ! j) \<le> length (matches ! i))
      \<and> (\<forall>j < i. length (matches ! j) < length (matches ! i))
      \<and> snd (process_line env min_matched_lines st line) = None
      \<and> (min_matched_lines \<le> int (length (matches ! i)) \<longrightarrow>
            matching_output (fst (process_line env min_matched_lines st line)) =
              matching_output st @ file_path @ [tab] @ results ! i @ [tab] @
                str_nat (length (matches ! i)) @ [newline]
            \<and> alignment_output (fst (process_line env min_matched_lines st line)) =
              alignment_output st @ file_path @ concat (map render_span (matches ! i)) @ [newline])
      \<and> (int (length (matches ! i)) < min_matched_lines \<longrightarrow>
            matching_output (fst (process_line env min_matched_lines st line)) = matching_output st
            \<and> alignment_output (fst (process_line env min_matched_lines st line)) =
              alignment_output st)"
proof -
  let ?scores = "map length matches"
  let ?st = "st\<lparr>nb_cards_searched := nb_cards_searched st + 1,
                 printed := printed st @ ['''', ''Matching '' @ file_path] @ out\<rparr>"
  have run: "process_line env min_matched_lines st line =
      report_best min_matched_lines file_path results matches ?st"
    by (rule process_line_report [OF line ocr parsed hits docs verified])
  have len_r: "length records = length results"
    using load_records_nth [OF docs] by simp
  have len_m: "length matches = length results"
    using match_all_nth [OF verified] len_r by simp
  have each: "\<forall>j < length results. snd (match_candidate env ocr (records ! j)) = Inr (matches ! j)"
    using match_all_nth [OF verified] len_r by simp
  have score: "\<forall>j < length results.
      \<exists>raw. match_entries env ocr (records ! j) [] = Inr raw
        \<and> length (matches ! j) =
            (case correct_overlaps env raw of Inl e \<Rightarrow> 0 | Inr resolved \<Rightarrow> length resolved)"
  proof (intro allI impI)
    fix j assume "j < length results"
    with each have "match_candidate env ocr (records ! j) =
        (fst (match_candidate env ocr (records ! j)), Inr (matches ! j))"
      by (metis prod.collapse)
    then show "\<exists>raw. match_entries env ocr (records ! j) [] = Inr raw
        \<and> length (matches ! j) =
            (case correct_overlaps env raw of Inl e \<Rightarrow> 0 | Inr resolved \<Rightarrow> length resolved)"
      by (rule match_candidate_score)
  qed
  have "?scores \<noteq> []" using nonempty len_m by auto
  from select_candidate_cases [OF this, of min_matched_lines]
  obtain i where i: "i < length matches"
    and greatest: "\<forall>j < length matches. length (matches ! j) \<le> length (matches ! i)"
    and first: "\<forall>j < i. length (matches ! j) < length (matches ! i)"
    and sel: "select_candidate min_matched_lines ?scores =
        (if min_matched_lines \<le> int (length (matches ! i)) then Some i else None)"
    by auto
  have above: "min_matched_lines \<le> int (length (matches ! i)) \<Longrightarrow>
      snd (process_line env min_matched_lines st line) = None
      \<and> matching_output (fst (process_line env min_matched_lines st line)) =
          matching_output st @ file_path @ [tab] @ results ! i @ [tab] @
            str_nat (length (matches ! i)) @ [newline]
      \<and> alignment_output (fst (process_line env min_matched_lines st line)) =
          alignment_output st @ file_path @ concat (map render_span (matches ! i)) @ [newline]"
    using report_best_selected [of min_matched_lines matches i results file_path ?st] sel len_m
    unfolding run by simp
  have below: "int (length (matches ! i)) < min_matched_lines \<Longrightarrow>
      snd (process_line env min_matched_lines st line) = None
      \<and> matching_output (fst (process_line env min_matched_lines st line)) = matching_output st
      \<and> alignment_output (fst (process_line env min_matched_lines st line)) = alignment_output st"
    using report_best_none [of min_matched_lines matches file_path results ?st] sel
    unfolding run by simp
  have none: "snd (process_line env min_matched_lines st line) = None"
    using above below by (cases "min_matched_lines \<le> int (length (matches ! i))") auto
  have "i < length results" using i len_m by simp
  moreover have "\<forall>j < length results. length (matches ! j) \<le> length (matches ! i)"
    using greatest len_m by simp
  ultimately show ?thesis
    using len_m each score first none above below by blast
qed

lemma demo_split: "split_on tab [] demo_line = [''card1'', ''Author 0 19'', ''Title 21 27'' @ [newline]]"
  by code_simp

lemma demo_load: "load_ocr demo_env (str_strip ''card1'') = Inr demo_ocr"
  by code_simp

lemma demo_parse:
  "parse_alignments [''Author 0 19'', ''Title 21 27'' @ [newline]] demo_ocr = Inr demo_parsed"
  by code_simp

lemma demo_search: "search_phrase demo_env demo_parsed demo_ocr = Inr [''rec1'', ''rec2'', ''rec3'']"
  by code_simp

lemma demo_docs:
  "load_records demo_env [''rec1'', ''rec2'', ''rec3''] =
     Inr [[(''Title'', ''Macbeth''), (''Place'', ''London'')],
          [(''Author'', ''Shakespeare''), (''Title'', ''Hamlet'')],
          [(''Title'', ''Hamlet''), (''Author'', ''Shakespeare'')]]"
  by code_simp

lemma demo_match_all:
  "match_all demo_env demo_ocr
     [[(''Title'', ''Macbeth''), (''Place'', ''London'')],
      [(''Author'', ''Shakespeare''), (''Title'', ''Hamlet'')],
      [(''Title'', ''Hamlet''), (''Author'', ''Shakespeare'')]] = ([], Inr demo_verified)"
  by code_simp

theorem selector_emits_first_best_candidate_witness:
  "map length demo_verified = [1, 2, 2]
   \<and> matching_output (fst (process_line demo_env 2 initial_state demo_line)) =
       ''card1'' @ [tab] @ ''rec2'' @ [tab] @ ''2'' @ [newline]"
proof -
  let ?results = "[''rec1'', ''rec2'', ''rec3'']"
  have scores: "map length demo_verified = [1, 2, 2]"
    by (simp add: demo_verified_def)
  have nonempty: "?results \<noteq> []" by simp
  from selector_emits_first_best_candidate
    [OF demo_split demo_load demo_parse demo_search nonempty demo_docs demo_match_all,
     of 2 initial_state]
  obtain i where i: "i < length ?results"
    and greatest: "\<forall>j < length ?results. length (demo_verified ! j) \<le> length (demo_verified ! i)"
    and first: "\<forall>j < i. length (demo_verified ! j) < length (demo_verified ! i)"
    and out: "2 \<le> int (length (demo_verified ! i)) \<longrightarrow>
            matching_output (fst (process_line demo_env 2 initial_state demo_line)) =
              matching_output initial_state @ ''card1'' @ [tab] @ ?results ! i @ [tab] @
                str_nat (length (demo_verified ! i)) @ [newline]"
    by blast
  from i consider "i = 0" | "i = 1" | "i = 2" by fastforce
  then have "i = 1"
  proof cases
    case 1
    with greatest have "length (demo_verified ! 1) \<le> length (demo_verified ! 0)" by simp
    then show ?thesis by (simp add: demo_verified_def)
  next
    case 2
    then show ?thesis .
  next
    case 3
    with first have "length (demo_verified ! 1) < length (demo_verified ! 2)" by simp
    then show ?thesis by (simp add: demo_verified_def)
  qed
  moreover have len: "length (demo_verified ! 1) = 2"
    by (simp add: demo_verified_def)
  moreover have "matching_output initial_state = []"
    by (simp add: initial_state_def)
  moreover have "str_nat 2 = ''2''"
    by code_simp
  ultimately have "matching_output (fst (process_line demo_env 2 initial_state demo_line)) =
      ''card1'' @ [tab] @ ''rec2'' @ [tab] @ ''2'' @ [newline]"
    using out by simp
  with scores show ?thesis by simp
qed

section \<open>A candidate without a located field\<close>

text \<open>
  C10, as the code has it. Whenever \<^verbatim>\<open>min_matched_lines\<close> is at least 1 (its
  default is 3), a candidate whose verification located no field is not the candidate
  that lines 214 to 217 select, whatever its place in the ranking.
\<close>

theorem zero_score_never_selected:
  assumes "0 < min_matched_lines" and "j < length matches" and "matches ! j = []"
  shows "select_candidate min_matched_lines (map length matches) \<noteq> Some j"
proof
  assume "select_candidate min_matched_lines (map length matches) = Some j"
  from select_candidate_Some [OF this] assms(2)
  have "min_matched_lines \<le> int (length (matches ! j))" by simp
  with assms(1,3) show False by simp
qed

theorem zero_score_never_selected_witness:
  "(0::int) < 1 \<and> ([] # demo_verified) ! 0 = []
   \<and> select_candidate 1 (map length ([] # demo_verified)) \<noteq> Some 0"
  using zero_score_never_selected [of 1 0 "[] # demo_verified"] by simp

text \<open>
  With \<^verbatim>\<open>--min-matched-lines 0\<close> the claim fails: the only candidate \<open>rec0\<close> has
  an empty alignment, is selected, and is written to the matching output with score 0.
\<close>

theorem zero_score_selected_counterexample:
  "match_candidate demo_env_unmatched demo_ocr [(''Title'', ''Macbeth'')] = ([], Inr [])
   \<and> select_candidate 0 (map length [[]]) = Some 0
   \<and> main demo_env_unmatched 0 0 [demo_line] =
       Inr (''card1'' @ [newline], ''card1'' @ [tab] @ ''rec0'' @ [tab] @ ''0'' @ [newline])"
  by code_simp

section \<open>The window of the main loop\<close>

lemma py_slice_in_range:
  assumes "0 \<le> i" and "i \<le> j"
  shows "py_slice xs i j = take (nat (j - i)) (drop (nat i) xs)"
proof (cases "i \<le> int (length xs)")
  case True
  show ?thesis
  proof (cases "j \<le> int (length xs)")
    case True
    with assms \<open>i \<le> int (length xs)\<close> show ?thesis
      by (simp add: py_slice_def Let_def min_def)
  next
    case False
    then have "length (drop (nat i) xs) \<le> nat (j - i)" using assms by simp
    then have "take (nat (j - i)) (drop (nat i) xs) = drop (nat i) xs" by simp
    moreover have "length (drop (nat i) xs) \<le> nat (int (length xs) - i)" using assms True by simp
    then have "take (nat (int (length xs) - i)) (drop (nat i) xs) = drop (nat i) xs" by simp
    ultimately show ?thesis
      using assms True False by (simp add: py_slice_def Let_def min_def)
  qed
next
  case False
  then have "drop (nat i) xs = []" by simp
  with assms False show ?thesis
    by (simp add: py_slice_def Let_def min_def)
qed

lemma window_take_drop:
  assumes "0 \<le> idx"
  shows "window idx all_lines = take 10 (drop (nat idx) all_lines)"
  unfolding window_def using py_slice_in_range [of idx "idx + 10" all_lines] assms by simp

lemma report_best_count:
  "nb_cards_searched (fst (report_best min_matched_lines file_path results matches st)) =
     nb_cards_searched st"
  by (simp add: report_best_def Let_def split: option.splits)

lemma process_line_count:
  "nb_cards_searched (fst (process_line env min_matched_lines st line))
     \<le> nb_cards_searched st + 1"
  by (auto simp: process_line_def Let_def report_best_count
           split: list.splits sum.splits prod.splits)

lemma main_loop_count:
  "nb_cards_searched (fst (main_loop env min_matched_lines st lines))
     \<le> nb_cards_searched st + length lines"
proof (induction lines arbitrary: st)
  case Nil
  show ?case by simp
next
  case (Cons line lines)
  obtain st' r where step: "process_line env min_matched_lines st line = (st', r)"
    by (cases "process_line env min_matched_lines st line")
  have st': "nb_cards_searched st' \<le> nb_cards_searched st + 1"
    using process_line_count [of env min_matched_lines st line] step by simp
  show ?case
  proof (cases r)
    case None
    with step Cons.IH [of st'] st' show ?thesis by simp
  next
    case (Some e)
    with step st' show ?thesis by simp
  qed
qed

text \<open>
  C4. For every start index \<open>idx\<close> between 0 and 2000000 the loop of \<^verbatim>\<open>main\<close> runs
  over \<^verbatim>\<open>all_lines[idx:idx+10]\<close>: at most ten lines, the lines at the positions
  \<open>idx\<close>, \<open>idx + 1\<close>, ... of the file; at most ten cards are counted, and two files
  that agree on this window give the same run, so no line outside it is matched. The
  start index decides which cards are processed: on the one-line file of the example,
  \<open>idx = 0\<close> matches the card and \<open>idx = 1\<close> processes none.
\<close>

theorem main_runs_on_window_of_ten:
  "(0 \<le> idx \<and> idx \<le> 2000000 \<longrightarrow>
      window idx all_lines = take 10 (drop (nat idx) all_lines)
      \<and> length (window idx all_lines) \<le> 10
      \<and> (\<forall>k < length (window idx all_lines).
            nat idx + k < length all_lines \<and> window idx all_lines ! k = all_lines ! (nat idx + k))
      \<and> nb_cards_searched
           (fst (main_loop env min_matched_lines initial_state (window idx all_lines))) \<le> 10
      \<and> (window idx other_lines = window idx all_lines \<longrightarrow>
            main env min_matched_lines idx other_lines = main env min_matched_lines idx all_lines))
   \<and> window 0 [demo_line] = [demo_line]
   \<and> window 1 [demo_line] = []
   \<and> main demo_env 2 0 [demo_line] \<noteq> main demo_env 2 1 [demo_line]"
proof (intro conjI impI)
  assume range: "0 \<le> idx \<and> idx \<le> 2000000"
  then have w: "window idx all_lines = take 10 (drop (nat idx) all_lines)"
    by (simp add: window_take_drop)
  then show "window idx all_lines = take 10 (drop (nat idx) all_lines)" .
  show len: "length (window idx all_lines) \<le> 10" unfolding w by simp
  show "\<forall>k < length (window idx all_lines).
      nat idx + k < length all_lines \<and> window idx all_lines ! k = all_lines ! (nat idx + k)"
    unfolding w by auto
  have "nb_cards_searched
      (fst (main_loop env min_matched_lines initial_state (window idx all_lines)))
      \<le> nb_cards_searched initial_state + length (window idx all_lines)"
    by (rule main_loop_count)
  with len show "nb_cards_searched
      (fst (main_loop env min_matched_lines initial_state (window idx all_lines))) \<le> 10"
    by (simp add: initial_state_def)
next
  assume "0 \<le> idx \<and> idx \<le> 2000000" and "window idx other_lines = window idx all_lines"
  then show "main env min_matched_lines idx other_lines = main env min_matched_lines idx all_lines"
    by (simp add: main_def)
next
  show "window 0 [demo_line] = [demo_line]" by (simp add: window_def py_slice_def)
  show "window 1 [demo_line] = []" by (simp add: window_def py_slice_def)
  have "main demo_env 2 0 [demo_line] =
      Inr (''card1'' @ [tab] @ ''Author 0 10'' @ [tab] @ ''Title 21 27'' @ [newline],
           ''card1'' @ [tab] @ ''rec2'' @ [tab] @ ''2'' @ [newline])"
    by code_simp
  moreover have "main demo_env 2 1 [demo_line] = Inl ZeroDivisionError"
    by code_simp
  ultimately show "main demo_env 2 0 [demo_line] \<noteq> main demo_env 2 1 [demo_line]"
    by simp
qed

theorem main_runs_on_window_of_ten_witness:
  "(0::int) \<le> 1 \<and> (1::int) \<le> 2000000
   \<and> window 1 [''a'', ''b'', ''c''] = [''b'', ''c'']
   \<and> window 1 [''z'', ''b'', ''c''] = window 1 [''a'', ''b'', ''c'']
   \<and> main demo_env 2 1 [''z'', ''b'', ''c''] = main demo_env 2 1 [''a'', ''b'', ''c'']"
proof -
  have w: "window 1 [''a'', ''b'', ''c''] = [''b'', ''c'']"
    and w': "window 1 [''z'', ''b'', ''c''] = [''b'', ''c'']"
    by (simp_all add: window_def py_slice_def)
  with main_runs_on_window_of_ten
    [of 1 "[''a'', ''b'', ''c'']" demo_env 2 "[''z'', ''b'', ''c'']"]
  show ?thesis by simp
qed

section \<open>The query builder\<close>

lemma fold_append_concat:
  assumes "\<And>x acc. f x acc = acc @ g x"
  shows "fold f xs acc = acc @ concat (map g xs)"
  by (induction xs arbitrary: acc) (simp_all add: assms)

lemma add_word_terms_append:
  "add_word_terms label word fuzzy_terms =
     fuzzy_terms @
       (if label = ''Author''
        then [FuzzyTerm ''author1'' word 2 0, FuzzyTerm ''author2'' word 2 0]
        else [FuzzyTerm (str_lower label) word 2 0])"
  by (simp add: add_word_terms_def)

lemma add_text_terms_append:
  "add_text_terms label text fuzzy_terms =
     fuzzy_terms @
       concat (map (\<lambda>word. if label = ''Author''
                     then [FuzzyTerm ''author1'' word 2 0, FuzzyTerm ''author2'' word 2 0]
                     else [FuzzyTerm (str_lower label) word 2 0])
                (filter (\<lambda>word. 3 < length word) (str_split text)))"
  unfolding add_text_terms_def
  by (rule fold_append_concat) (rule add_word_terms_append)

lemma add_label_terms_append:
  "add_label_terms item fuzzy_terms =
     fuzzy_terms @
       (case item of (label, texts) \<Rightarrow>
          concat (map (\<lambda>text.
            concat (map (\<lambda>word. if label = ''Author''
                          then [FuzzyTerm ''author1'' word 2 0, FuzzyTerm ''author2'' word 2 0]
                          else [FuzzyTerm (str_lower label) word 2 0])
                     (filter (\<lambda>word. 3 < length word) (str_split text)))) texts))"
proof (cases item)
  case (Pair label texts)
  show ?thesis
    unfolding add_label_terms_def Pair prod.case
    by (rule fold_append_concat) (rule add_text_terms_append)
qed

lemma split_ws_tokens:
  assumes "\<forall>c \<in> set cur. \<not> isspace c" and "w \<in> set (split_ws cur s)"
  shows "w \<noteq> [] \<and> (\<forall>c \<in> set w. \<not> isspace c)"
  using assms
proof (induction s arbitrary: cur)
  case Nil
  then show ?case by (cases "cur = []") simp_all
next
  case (Cons c cs)
  show ?case
  proof (cases "isspace c")
    case True
    have empty: "\<forall>c \<in> set ([] :: string). \<not> isspace c" by simp
    show ?thesis
    proof (cases "cur = []")
      case True
      with \<open>isspace c\<close> Cons.prems(2) have "w \<in> set (split_ws [] cs)" by simp
      with Cons.IH [OF empty] show ?thesis by blast
    next
      case False
      with \<open>isspace c\<close> Cons.prems(2) consider "w = cur" | "w \<in> set (split_ws [] cs)" by auto
      then show ?thesis
      proof cases
        case 1
        with False Cons.prems(1) show ?thesis by simp
      next
        case 2
        with Cons.IH [OF empty] show ?thesis by blast
      qed
    qed
  next
    case False
    with Cons.prems(2) have mem: "w \<in> set (split_ws (cur @ [c]) cs)" by simp
    have "\<forall>d \<in> set (cur @ [c]). \<not> isspace d" using Cons.prems(1) False by simp
    from Cons.IH [OF this mem] show ?thesis .
  qed
qed

lemma split_ws_at_space:
  assumes "isspace c"
  shows "split_ws cur (u @ c # v) = split_ws cur u @ split_ws [] v"
  using assms by (induction u arbitrary: cur) simp_all

lemma split_ws_token:
  assumes "\<forall>c \<in> set w. \<not> isspace c" and "cur @ w \<noteq> []"
  shows "split_ws cur w = [cur @ w]"
  using assms by (induction w arbitrary: cur) simp_all

text \<open>
  C5. For every alignment map the query of \<^verbatim>\<open>search_phrase\<close> is one \<open>Or\<close> over
  the terms of all labels, texts and words in order: each text is split on whitespace,
  only words of more than 3 code points are kept, and each kept word gives a
  \<open>FuzzyTerm\<close> with \<open>maxdist\<close> 2 and \<open>prefixlength\<close> 0, one for \<open>author1\<close> and
  one for \<open>author2\<close> under the label \<open>Author\<close> and one for the lower-cased label
  otherwise. Splitting on whitespace gives non-empty words free of whitespace, cuts at
  every whitespace code point, and keeps a word without whitespace whole.
\<close>

theorem query_builder_terms:
  "build_query alignments =
     Or (concat (map (\<lambda>(label, texts).
           concat (map (\<lambda>text.
             concat (map (\<lambda>word.
                 if label = ''Author''
                 then [FuzzyTerm ''author1'' word 2 0, FuzzyTerm ''author2'' word 2 0]
                 else [FuzzyTerm (str_lower label) word 2 0])
               (filter (\<lambda>word. 3 < length word) (str_split text)))) texts)) alignments))
   \<and> (\<forall>word \<in> set (str_split text). word \<noteq> [] \<and> (\<forall>c \<in> set word. \<not> isspace c))
   \<and> (isspace c \<longrightarrow> str_split (u @ c # v) = str_split u @ str_split v)
   \<and> (w \<noteq> [] \<and> (\<forall>c \<in> set w. \<not> isspace c) \<longrightarrow> str_split w = [w])"
proof (intro conjI impI ballI)
  have "fold add_label_terms alignments [] =
      [] @ concat (map (\<lambda>item. case item of (label, texts) \<Rightarrow>
           concat (map (\<lambda>text.
             concat (map (\<lambda>word.
                 if label = ''Author''
                 then [FuzzyTerm ''author1'' word 2 0, FuzzyTerm ''author2'' word 2 0]
                 else [FuzzyTerm (str_lower label) word 2 0])
               (filter (\<lambda>word. 3 < length word) (str_split text)))) texts)) alignments)"
    by (rule fold_append_concat) (rule add_label_terms_append)
  then show "build_query alignments =
     Or (concat (map (\<lambda>(label, texts).
           concat (map (\<lambda>text.
             concat (map (\<lambda>word.
                 if label = ''Author''
                 then [FuzzyTerm ''author1'' word 2 0, FuzzyTerm ''author2'' word 2 0]
                 else [FuzzyTerm (str_lower label) word 2 0])
               (filter (\<lambda>word. 3 < length word) (str_split text)))) texts)) alignments))"
    by (simp add: build_query_def)
next
  fix word assume "word \<in> set (str_split text)"
  then show "word \<noteq> []" and "\<And>c. c \<in> set word \<Longrightarrow> \<not> isspace c"
    using split_ws_tokens [of "[]" word "text"] by (auto simp: str_split_def)
next
  assume "isspace c"
  then show "str_split (u @ c # v) = str_split u @ str_split v"
    unfolding str_split_def by (rule split_ws_at_space)
next
  assume "w \<noteq> [] \<and> (\<forall>c \<in> set w. \<not> isspace c)"
  then show "str_split w = [w]"
    unfolding str_split_def using split_ws_token [of w "[]"] by simp
qed

theorem query_builder_terms_witness:
  "isspace CHR '' ''
   \<and> str_split ''Shakespeae, William'' = [''Shakespeae,'', ''William'']
   \<and> str_split ''The Tragedy of Hamlet'' = [''The'', ''Tragedy'', ''of'', ''Hamlet'']
   \<and> build_query [(''Author'', [''Shakespeae, William'']), (''Title'', [''The Tragedy of Hamlet''])] =
       Or [FuzzyTerm ''author1'' ''Shakespeae,'' 2 0, FuzzyTerm ''author2'' ''Shakespeae,'' 2 0,
           FuzzyTerm ''author1'' ''William'' 2 0, FuzzyTerm ''author2'' ''William'' 2 0,
           FuzzyTerm ''title'' ''Tragedy'' 2 0, FuzzyTerm ''title'' ''Hamlet'' 2 0]"
proof -
  have sp: "isspace CHR '' ''" by (simp add: isspace_def)
  have w1: "''Shakespeae,'' \<noteq> [] \<and> (\<forall>c \<in> set ''Shakespeae,''. \<not> isspace c)"
    and w2: "''William'' \<noteq> [] \<and> (\<forall>c \<in> set ''William''. \<not> isspace c)"
    by (simp_all add: isspace_def)
  have s1: "str_split ''Shakespeae,'' = [''Shakespeae,'']"
    using query_builder_terms [of "[]" "[]" "CHR '' ''" "[]" "[]" "''Shakespeae,''"] w1 by blast
  have s2: "str_split ''William'' = [''William'']"
    using query_builder_terms [of "[]" "[]" "CHR '' ''" "[]" "[]" "''William''"] w2 by blast
  have "str_split (''Shakespeae,'' @ CHR '' '' # ''William'') =
      str_split ''Shakespeae,'' @ str_split ''William''"
    using query_builder_terms [of "[]" "[]" "CHR '' ''" "''Shakespeae,''" "''William''" "[]"] sp
    by blast
  with s1 s2 have split: "str_split ''Shakespeae, William'' = [''Shakespeae,'', ''William'']"
    by simp
  have split2: "str_split ''The Tragedy of Hamlet'' = [''The'', ''Tragedy'', ''of'', ''Hamlet'']"
    by code_simp
  have low: "str_lower ''Title'' = ''title''" by code_simp
  have "build_query [(''Author'', [''Shakespeae, William'']), (''Title'', [''The Tragedy of Hamlet''])] =
       Or [FuzzyTerm ''author1'' ''Shakespeae,'' 2 0, FuzzyTerm ''author2'' ''Shakespeae,'' 2 0,
           FuzzyTerm ''author1'' ''William'' 2 0, FuzzyTerm ''author2'' ''William'' 2 0,
           FuzzyTerm ''title'' ''Tragedy'' 2 0, FuzzyTerm ''title'' ''Hamlet'' 2 0]"
    using query_builder_terms
      [of "[(''Author'', [''Shakespeae, William'']), (''Title'', [''The Tragedy of Hamlet''])]"
          "[]" "CHR '' ''" "[]" "[]" "[]"]
    by (simp add: split split2 low)
  with sp split split2 show ?thesis by simp
qed

section \<open>Re-slicing after overlap resolution\<close>







section \<open>Retrieval timeout\<close>

lemma process_line_timeout:
  assumes "split_on tab [] line = file_path # alignments"
    and "load_ocr env (str_strip file_path) = Inr ocr"
    and "parse_alignments alignments ocr = Inr parsed"
    and "search_phrase env parsed ocr = Inl TimeoutError"
  shows "process_line env min_matched_lines st line =
     (st\<lparr>nb_cards_searched := nb_cards_searched st + 1,
         printed := printed st @
           ['''', ''Matching '' @ file_path,
            ''Timeout reached on file '' @ file_path @ '', skipping'']\<rparr>, None)"
  using assms by (simp add: process_line_def Let_def)

text \<open>
  C7. \<^verbatim>\<open>search_phrase\<close> runs under \<^verbatim>\<open>@timeout(60)\<close>. When the retrieval for a
  card needs more than 60 seconds, \<^verbatim>\<open>search_phrase\<close> raises
  \<^verbatim>\<open>TimeoutError\<close>; the loop body counts the card, prints that the file is skipped
  and leaves both outputs as they were, and the loop goes on with the lines after this
  one, so the card is not tried again. When the retrieval needs at most 60 seconds,
  \<^verbatim>\<open>search_phrase\<close> gives the outcome of the search itself.
\<close>

theorem retrieval_timeout_skips_card:
  assumes line: "split_on tab [] line = file_path # alignments"
    and ocr: "load_ocr env (str_strip file_path) = Inr ocr"
    and parsed: "parse_alignments alignments ocr = Inr parsed"
  shows "(60 < search_seconds env parsed ocr \<longrightarrow>
       search_phrase env parsed ocr = Inl TimeoutError
       \<and> process_line env min_matched_lines st line =
           (st\<lparr>nb_cards_searched := nb_cards_searched st + 1,
               printed := printed st @
                 ['''', ''Matching '' @ file_path,
                  ''Timeout reached on file '' @ file_path @ '', skipping'']\<rparr>, None)
       \<and> matching_output (fst (process_line env min_matched_lines st line)) = matching_output st
       \<and> alignment_output (fst (process_line env min_matched_lines st line)) = alignment_output st
       \<and> main_loop env min_matched_lines st (line # lines) =
           main_loop env min_matched_lines
             (st\<lparr>nb_cards_searched := nb_cards_searched st + 1,
                 printed := printed st @
                   ['''', ''Matching '' @ file_path,
                    ''Timeout reached on file '' @ file_path @ '', skipping'']\<rparr>) lines)
     \<and> (search_seconds env parsed ocr \<le> 60 \<longrightarrow>
           search_phrase env parsed ocr = searcher_search env (build_query parsed))"
proof (intro conjI impI)
  assume slow: "60 < search_seconds env parsed ocr"
  show expired: "search_phrase env parsed ocr = Inl TimeoutError"
    using slow by (simp add: search_phrase_def timeout_def)
  show step: "process_line env min_matched_lines st line =
         (st\<lparr>nb_cards_searched := nb_cards_searched st + 1,
             printed := printed st @
               ['''', ''Matching '' @ file_path,
                ''Timeout reached on file '' @ file_path @ '', skipping'']\<rparr>, None)"
    by (rule process_line_timeout [OF line ocr parsed expired])
  show "matching_output (fst (process_line env min_matched_lines st line)) = matching_output st"
    and "alignment_output (fst (process_line env min_matched_lines st line)) = alignment_output st"
    unfolding step by simp_all
  show "main_loop env min_matched_lines st (line # lines) =
         main_loop env min_matched_lines
           (st\<lparr>nb_cards_searched := nb_cards_searched st + 1,
               printed := printed st @
                 ['''', ''Matching '' @ file_path,
                  ''Timeout reached on file '' @ file_path @ '', skipping'']\<rparr>) lines"
    using step by simp
next
  assume "search_seconds env parsed ocr \<le> 60"
  then show "search_phrase env parsed ocr = searcher_search env (build_query parsed)"
    by (simp add: search_phrase_def timeout_def)
qed

theorem retrieval_timeout_skips_card_witness:
  "(60::rat) < search_seconds demo_env_slow demo_parsed demo_ocr
   \<and> printed (fst (process_line demo_env_slow 2 initial_state demo_line)) =
       ['''', ''Matching card1'', ''Timeout reached on file card1, skipping'']
   \<and> search_seconds demo_env_slow [(''Title'', [''Hamlet''])] demo_ocr \<le> (60::rat)
   \<and> search_phrase demo_env_slow [(''Title'', [''Hamlet''])] demo_ocr =
       Inr [''rec1'', ''rec2'', ''rec3'']
   \<and> main demo_env_slow 2 0 [demo_line, demo_line_title] =
       Inr (''card1'' @ [tab] @ ''Author 0 10'' @ [tab] @ ''Title 21 27'' @ [newline],
            ''card1'' @ [tab] @ ''rec2'' @ [tab] @ ''2'' @ [newline])"
proof -
  have load: "load_ocr demo_env_slow (str_strip ''card1'') = Inr demo_ocr"
    by code_simp
  have slow: "(60::rat) < search_seconds demo_env_slow demo_parsed demo_ocr"
    by (simp add: demo_env_slow_def)
  have skip: "printed (fst (process_line demo_env_slow 2 initial_state demo_line)) =
       ['''', ''Matching card1'', ''Timeout reached on file card1, skipping'']"
    using retrieval_timeout_skips_card [OF demo_split load demo_parse, of 2 initial_state] slow
    by (simp add: initial_state_def)
  have split': "split_on tab [] demo_line_title = [''card1'', ''Title 21 27'' @ [newline]]"
    by code_simp
  have parse': "parse_alignments [''Title 21 27'' @ [newline]] demo_ocr =
      Inr [(''Title'', [''Hamlet''])]"
    by code_simp
  have quick: "search_seconds demo_env_slow [(''Title'', [''Hamlet''])] demo_ocr \<le> (60::rat)"
    by (simp add: demo_env_slow_def demo_parsed_def)
  have "searcher_search demo_env_slow (build_query [(''Title'', [''Hamlet''])]) =
      Inr [''rec1'', ''rec2'', ''rec3'']"
    by (simp add: demo_env_slow_def demo_env_def)
  with retrieval_timeout_skips_card [OF split' load parse', of 2 initial_state] quick
  have found: "search_phrase demo_env_slow [(''Title'', [''Hamlet''])] demo_ocr =
      Inr [''rec1'', ''rec2'', ''rec3'']"
    by simp
  have "main demo_env_slow 2 0 [demo_line, demo_line_title] =
       Inr (''card1'' @ [tab] @ ''Author 0 10'' @ [tab] @ ''Title 21 27'' @ [newline],
            ''card1'' @ [tab] @ ''rec2'' @ [tab] @ ''2'' @ [newline])"
    by code_simp
  with slow skip quick found show ?thesis by simp
qed

section \<open>Failure of overlap resolution\<close>

text \<open>
  C8, as the code has it. If \<^verbatim>\<open>correct_overlaps\<close> raises any exception while a
  candidate is verified, \<^verbatim>\<open>match_candidate\<close> prints the fixed line
  \<open>Error during correcting overlaps\<close> and returns the empty list, so the candidate
  scores zero, and the verification of the remaining candidates goes on: their lists
  follow the empty one.
\<close>

theorem resolver_failure_scores_zero:
  assumes raw: "match_entries env ocr db_entries [] = Inr raw"
    and failed: "correct_overlaps env raw = Inl e"
  shows "match_candidate env ocr db_entries = ([''Error during correcting overlaps''], Inr [])
     \<and> match_all env ocr (db_entries # records) =
         (case match_all env ocr records of
            (out, Inl e') \<Rightarrow> (''Error during correcting overlaps'' # out, Inl e')
          | (out, Inr ms) \<Rightarrow> (''Error during correcting overlaps'' # out, Inr ([] # ms)))"
proof -
  have one: "match_candidate env ocr db_entries = ([''Error during correcting overlaps''], Inr [])"
    using raw failed by (simp add: match_candidate_def)
  show ?thesis
    unfolding match_all.simps one by (simp split: prod.splits sum.splits)
qed

theorem resolver_failure_scores_zero_witness:
  "match_entries demo_env_failing demo_ocr [(''Title'', ''Macbeth''), (''Place'', ''London'')] [] =
     Inr [\<lparr>f_label = ''Place'', f_text = ''London'', f_from = 37, f_to = 43\<rparr>]
   \<and> correct_overlaps demo_env_failing
       [\<lparr>f_label = ''Place'', f_text = ''London'', f_from = 37, f_to = 43\<rparr>] =
     Inl (OtherError ''overlap'')
   \<and> match_all demo_env_failing demo_ocr [[(''Title'', ''Macbeth''), (''Place'', ''London'')], []] =
     ([''Error during correcting overlaps'', ''Error during correcting overlaps''], Inr [[], []])"
proof -
  let ?raw = "[\<lparr>f_label = ''Place'', f_text = ''London'', f_from = 37, f_to = 43\<rparr>]"
  have raw: "match_entries demo_env_failing demo_ocr
      [(''Title'', ''Macbeth''), (''Place'', ''London'')] [] = Inr ?raw"
    by code_simp
  have failed: "correct_overlaps demo_env_failing ?raw = Inl (OtherError ''overlap'')"
    by (simp add: demo_env_failing_def)
  have rest: "match_all demo_env_failing demo_ocr [[]] =
      ([''Error during correcting overlaps''], Inr [[]])"
    by code_simp
  from resolver_failure_scores_zero [OF raw failed, of "[[]]"] rest raw failed
  show ?thesis by simp
qed

text \<open>
  The printed line does not name the record: on the example, where the resolver fails
  for each of \<open>rec1\<close>, \<open>rec2\<close> and \<open>rec3\<close>, no line printed for the card holds
  one of the three identifiers.
\<close>

theorem resolver_failure_log_counterexample:
  "txn_bib demo_env_failing ''rec1'' = Some [(''Title'', ''Macbeth''), (''Place'', ''London'')]
   \<and> match_candidate demo_env_failing demo_ocr [(''Title'', ''Macbeth''), (''Place'', ''London'')] =
       ([''Error during correcting overlaps''], Inr [])
   \<and> printed (fst (process_line demo_env_failing 2 initial_state demo_line)) =
       ['''', ''Matching card1'',
        ''Error during correcting overlaps'',
        ''Error during correcting overlaps'',
        ''Error during correcting overlaps'',
        ''Found 3 candidates with scores:.'',
        ''Not enough matches found for file card1 (must be higher than 2'']
   \<and> filter (sublist ''rec1'')
         (printed (fst (process_line demo_env_failing 2 initial_state demo_line))) = []
   \<and> filter (sublist ''rec2'')
         (printed (fst (process_line demo_env_failing 2 initial_state demo_line))) = []
   \<and> filter (sublist ''rec3'')
         (printed (fst (process_line demo_env_failing 2 initial_state demo_line))) = []"
  by code_simp

section \<open>Defective input\<close>

lemma parse_alignment_error:
  assumes "parse_alignment alignment = Inl e"
  shows "e = ValueError"
  using assms
  by (auto simp: parse_alignment_def split: list.splits option.splits)

lemma parse_alignments_from_error:
  assumes "parse_alignments_from result alignments ocr = Inl e"
  shows "e = ValueError"
  using assms
proof (induction alignments arbitrary: result)
  case Nil
  then show ?case by simp
next
  case (Cons a as)
  show ?case
  proof (cases "parse_alignment a")
    case (Inl e')
    with Cons.prems have "e = e'" by simp
    with Inl parse_alignment_error show ?thesis by blast
  next
    case (Inr t)
    obtain label i j where t: "t = (label, i, j)" by (cases t)
    with Inr Cons.prems
    have "parse_alignments_from (dict_append label (py_slice ocr i j) result) as ocr = Inl e"
      by simp
    then show ?thesis by (rule Cons.IH)
  qed
qed

lemma txn_get_missing:
  assumes "store key = None"
  shows "txn_get store key = Inl BadValsizeError \<or> txn_get store key = Inr None"
  using assms by (simp add: txn_get_def)

lemma load_ocr_missing:
  assumes "txn_ocr env path = None"
  shows "load_ocr env path = Inl BadValsizeError \<or> load_ocr env path = Inl AttributeError"
  using txn_get_missing [of "txn_ocr env" path] assms by (auto simp: load_ocr_def)

lemma load_records_missing:
  assumes "r \<in> set results" and "txn_bib env r = None"
  shows "load_records env results = Inl BadValsizeError
     \<or> load_records env results = Inl AttributeError"
  using assms
proof (induction results)
  case Nil
  then show ?case by simp
next
  case (Cons a as)
  show ?case
  proof (cases "txn_get (txn_bib env) a")
    case (Inl e)
    then have "e = BadValsizeError" by (simp add: txn_get_def split: if_splits)
    with Inl show ?thesis by simp
  next
    case (Inr v)
    show ?thesis
    proof (cases v)
      case None
      with Inr show ?thesis by simp
    next
      case (Some doc)
      with Inr have "txn_bib env a = Some doc" by (simp add: txn_get_def split: if_splits)
      with Cons.prems have "r \<in> set as" by auto
      with Cons.IH Cons.prems(2)
      have "load_records env as = Inl BadValsizeError \<or> load_records env as = Inl AttributeError"
        by simp
      with Inr Some show ?thesis by auto
    qed
  qed
qed

lemma main_loop_append:
  "main_loop env min_matched_lines st (pre @ rest) =
     (case main_loop env min_matched_lines st pre of
        (st', Some e) \<Rightarrow> (st', Some e)
      | (st', None) \<Rightarrow> main_loop env min_matched_lines st' rest)"
  by (induction pre arbitrary: st) (auto split: prod.splits option.splits)

lemma process_line_defect:
  assumes line: "split_on tab [] line = file_path # alignments"
    and defect: "txn_ocr env (str_strip file_path) = None
       \<or> (\<exists>ocr e. load_ocr env (str_strip file_path) = Inr ocr
                   \<and> parse_alignments alignments ocr = Inl e)
       \<or> (\<exists>ocr parsed results.
             load_ocr env (str_strip file_path) = Inr ocr
             \<and> parse_alignments alignments ocr = Inr parsed
             \<and> search_phrase env parsed ocr = Inr results
             \<and> (\<exists>r \<in> set results. txn_bib env r = None))"
  shows "\<exists>st' e. e \<noteq> KeyboardInterrupt
     \<and> process_line env min_matched_lines st line = (st', Some e)
     \<and> matching_output st' = matching_output st
     \<and> alignment_output st' = alignment_output st"
  using defect
proof (elim disjE exE conjE bexE)
  assume "txn_ocr env (str_strip file_path) = None"
  from load_ocr_missing [OF this] obtain e where
    "load_ocr env (str_strip file_path) = Inl e" and "e \<noteq> KeyboardInterrupt"
    by auto
  with line show ?thesis by (simp add: process_line_def Let_def)
next
  fix ocr e
  assume ocr: "load_ocr env (str_strip file_path) = Inr ocr"
    and bad: "parse_alignments alignments ocr = Inl e"
  from bad have "e = ValueError"
    unfolding parse_alignments_def by (rule parse_alignments_from_error)
  with line ocr bad show ?thesis by (simp add: process_line_def Let_def)
next
  fix ocr parsed results r
  assume ocr: "load_ocr env (str_strip file_path) = Inr ocr"
    and parsed: "parse_alignments alignments ocr = Inr parsed"
    and hits: "search_phrase env parsed ocr = Inr results"
    and r: "r \<in> set results" "txn_bib env r = None"
  from load_records_missing [OF r] obtain e where
    "load_records env results = Inl e" and "e \<noteq> KeyboardInterrupt"
    by auto
  with line ocr parsed hits show ?thesis by (simp add: process_line_def Let_def)
qed

text \<open>
  C9, as the code has it. When a line of the window names a card that the OCR store
  does not hold, or has an alignment that \<^verbatim>\<open>parse_alignments\<close> cannot read, or
  its retrieval ranks a record that the record store does not hold, and the lines of
  the window before it were processed, then the loop body raises an exception without
  touching the two outputs, the loop stops at this line, and \<^verbatim>\<open>main\<close> ends with
  that exception: the following cards are not processed and no result is saved.
\<close>

theorem defective_card_aborts_run:
  assumes line: "split_on tab [] line = file_path # alignments"
    and defect: "txn_ocr env (str_strip file_path) = None
       \<or> (\<exists>ocr e. load_ocr env (str_strip file_path) = Inr ocr
                   \<and> parse_alignments alignments ocr = Inl e)
       \<or> (\<exists>ocr parsed results.
             load_ocr env (str_strip file_path) = Inr ocr
             \<and> parse_alignments alignments ocr = Inr parsed
             \<and> search_phrase env parsed ocr = Inr results
             \<and> (\<exists>r \<in> set results. txn_bib env r = None))"
    and before: "main_loop env min_matched_lines initial_state pre = (st, None)"
    and win: "window idx all_lines = pre @ line # lines"
  shows "\<exists>st' e. process_line env min_matched_lines st line = (st', Some e)
     \<and> matching_output st' = matching_output st
     \<and> alignment_output st' = alignment_output st
     \<and> main_loop env min_matched_lines st (line # lines) = (st', Some e)
     \<and> main env min_matched_lines idx all_lines = Inl e"
proof -
  from process_line_defect [OF line defect, of min_matched_lines st]
  obtain st' e where e: "e \<noteq> KeyboardInterrupt"
    and step: "process_line env min_matched_lines st line = (st', Some e)"
    and same: "matching_output st' = matching_output st" "alignment_output st' = alignment_output st"
    by blast
  have loop: "main_loop env min_matched_lines st (line # lines) = (st', Some e)"
    using step by simp
  have "main_loop env min_matched_lines initial_state (window idx all_lines) = (st', Some e)"
    unfolding win main_loop_append before using loop by simp
  with e have "main env min_matched_lines idx all_lines = Inl e"
    by (simp add: main_def)
  with step same loop show ?thesis by blast
qed

text \<open>
  The claim of a per-card recovery fails on each defect: the run that matches the card
  of \<open>demo_line\<close> ends with an exception, and saves nothing, as soon as a malformed
  line, a line for an unknown card or a blank line stands before it, or a ranked
  record is missing.
\<close>

theorem defective_card_fatal_counterexample:
  "main demo_env 2 0 [demo_line] =
     Inr (''card1'' @ [tab] @ ''Author 0 10'' @ [tab] @ ''Title 21 27'' @ [newline],
          ''card1'' @ [tab] @ ''rec2'' @ [tab] @ ''2'' @ [newline])
   \<and> main demo_env 2 0 [demo_line_malformed, demo_line] = Inl ValueError
   \<and> main demo_env 2 0 [demo_line_unknown, demo_line] = Inl AttributeError
   \<and> main demo_env 2 0 [[newline], demo_line] = Inl BadValsizeError
   \<and> main demo_env_missing_record 2 0 [demo_line, demo_line] = Inl AttributeError"
  by code_simp

theorem defective_card_aborts_run_witness:
  "parse_alignments [''Author 0'' @ [newline]] demo_ocr = Inl ValueError
   \<and> window 0 [demo_line, demo_line_malformed, demo_line] =
       [demo_line] @ demo_line_malformed # [demo_line]
   \<and> main demo_env 2 0 [demo_line, demo_line_malformed, demo_line] = Inl ValueError"
proof -
  let ?st = "fst (main_loop demo_env 2 initial_state [demo_line])"
  have before: "main_loop demo_env 2 initial_state [demo_line] = (?st, None)"
    by code_simp
  have split: "split_on tab [] demo_line_malformed = [''card1'', ''Author 0'' @ [newline]]"
    by code_simp
  have bad: "parse_alignments [''Author 0'' @ [newline]] demo_ocr = Inl ValueError"
    by code_simp
  have win: "window 0 [demo_line, demo_line_malformed, demo_line] =
      [demo_line] @ demo_line_malformed # [demo_line]"
    by (simp add: window_def py_slice_def)
  have defect: "txn_ocr demo_env (str_strip ''card1'') = None
       \<or> (\<exists>ocr e. load_ocr demo_env (str_strip ''card1'') = Inr ocr
                   \<and> parse_alignments [''Author 0'' @ [newline]] ocr = Inl e)
       \<or> (\<exists>ocr parsed results.
             load_ocr demo_env (str_strip ''card1'') = Inr ocr
             \<and> parse_alignments [''Author 0'' @ [newline]] ocr = Inr parsed
             \<and> search_phrase demo_env parsed ocr = Inr results
             \<and> (\<exists>r \<in> set results. txn_bib demo_env r = None))"
    using demo_load bad by blast
  from defective_card_aborts_run [OF split defect before win]
  obtain st' e where
    step: "process_line demo_env 2 ?st demo_line_malformed = (st', Some e)"
    and run: "main demo_env 2 0 [demo_line, demo_line_malformed, demo_line] = Inl e"
    by blast
  have "snd (process_line demo_env 2 ?st demo_line_malformed) = Some ValueError"
    by code_simp
  with step have "e = ValueError" by simp
  with run have malformed:
    "main demo_env 2 0 [demo_line, demo_line_malformed, demo_line] = Inl ValueError"
    by simp
  from bad win malformed show ?thesis by simp
qed

end
